theory Spec2Isabelle
  imports Main
begin

section \<open>Pagination example: numbered pages and infinite scroll\<close>

text \<open>
  The development embeds the logic of the pagination example: the page component
  (\<open>page.tsx\<close>), the numbered pagination controls, the infinite-scroll post list and the
  style toggle. Numbers that the source only ever uses as page indices, item counts and
  list positions are integers (\<open>int\<close>); the numbers that come out of \<open>parseInt\<close> may be
  \<open>NaN\<close> and get a type of their own further down.
\<close>

subsection \<open>Pagination controls: the page-number window\<close>

text \<open>
  The \<open>for\<close> loop of \<open>getPageNumbers\<close>:
  \<^verbatim>\<open>for (let i = lo; i <= hi; i++) { pages.push(i); }\<close>
  with the array \<open>pages\<close> threaded through as an accumulator.
\<close>

function pushRange :: "int \<Rightarrow> int \<Rightarrow> int list \<Rightarrow> int list" where
  "pushRange i hi pages = (if i \<le> hi then pushRange (i + 1) hi (pages @ [i]) else pages)"
  by pat_completeness auto
termination
  by (relation "measure (\<lambda>(i, hi, pages). nat (hi + 1 - i))") auto

declare pushRange.simps [simp del]

text \<open>
  \<open>getPageNumbers\<close> closes over the props \<open>currentPage\<close> and the derived \<open>totalPages\<close>;
  both are parameters here. The markers \<open>-1\<close> and \<open>-2\<close> are the two ellipses, as in the
  source.
\<close>

definition getPageNumbers :: "int \<Rightarrow> int \<Rightarrow> int list" where
  "getPageNumbers currentPage totalPages =
     (let pages = [];
          pages = pages @ [1];
          pages = (if currentPage > 4 then pages @ [- 1] else pages);
          pages = pushRange (max 2 (currentPage - 2))
                    (min (totalPages - 1) (currentPage + 2)) pages;
          pages = (if currentPage < totalPages - 3 then pages @ [- 2] else pages);
          pages = (if totalPages > 1 then pages @ [totalPages] else pages)
      in pages)"

text \<open>
  The render step tells the two kinds of token apart by sign
  (\<^verbatim>\<open>page < 0 ? <span>...</span> : <button>{page}</button>\<close>): a negative entry is an
  ellipsis, every other entry is a page button. \<open>pageTokens\<close> keeps the page buttons.
\<close>

definition isEllipsis :: "int \<Rightarrow> bool" where
  "isEllipsis page = (page < 0)"

definition pageTokens :: "int list \<Rightarrow> int list" where
  "pageTokens pages = filter (\<lambda>page. \<not> isEllipsis page) pages"

subsection \<open>Numbers that may be \<open>NaN\<close>\<close>

text \<open>
  \<open>parseInt\<close> returns an integer or \<open>NaN\<close>, and \<open>NaN\<close> is absorbing for the arithmetic the
  source does with the result. Integers are unbounded here: the model is exact for the
  values a double represents exactly (below \<open>2^53\<close> in magnitude), and it does not tell
  \<open>-0\<close> from \<open>0\<close>.
\<close>

datatype jsnum = NaN | Num int

instantiation jsnum :: "{plus, minus, times}"
begin

definition plus_jsnum :: "jsnum \<Rightarrow> jsnum \<Rightarrow> jsnum" where
  "plus_jsnum a b = (case a of NaN \<Rightarrow> NaN | Num x \<Rightarrow> (case b of NaN \<Rightarrow> NaN | Num y \<Rightarrow> Num (x + y)))"

definition minus_jsnum :: "jsnum \<Rightarrow> jsnum \<Rightarrow> jsnum" where
  "minus_jsnum a b = (case a of NaN \<Rightarrow> NaN | Num x \<Rightarrow> (case b of NaN \<Rightarrow> NaN | Num y \<Rightarrow> Num (x - y)))"

definition times_jsnum :: "jsnum \<Rightarrow> jsnum \<Rightarrow> jsnum" where
  "times_jsnum a b = (case a of NaN \<Rightarrow> NaN | Num x \<Rightarrow> (case b of NaN \<Rightarrow> NaN | Num y \<Rightarrow> Num (x * y)))"

instance ..

end

text \<open>
  \<open>parseInt(value, 10)\<close>, after ECMAScript: leading white space is dropped, one sign is
  read, then the longest prefix of decimal digits; no digit at all gives \<open>NaN\<close>. A
  character is a code unit below 256, so the white space is TAB, LF, VT, FF, CR, SP and
  NBSP.
\<close>

definition isWhiteSpace :: "char \<Rightarrow> bool" where
  "isWhiteSpace c = (of_char c \<in> set [9, 10, 11, 12, 13, 32, 160 :: nat])"

definition isDigit :: "char \<Rightarrow> bool" where
  "isDigit c = (48 \<le> (of_char c :: nat) \<and> (of_char c :: nat) \<le> 57)"

definition digitsValue :: "string \<Rightarrow> int" where
  "digitsValue z = foldl (\<lambda>acc c. 10 * acc + (of_char c - 48)) 0 z"

definition parseInt :: "string \<Rightarrow> jsnum" where
  "parseInt inputString =
     (let s = dropWhile isWhiteSpace inputString;
          sign = (case s of c # _ \<Rightarrow> if c = CHR ''-'' then - 1 else 1 | [] \<Rightarrow> 1);
          s = (case s of c # rest \<Rightarrow> if c = CHR ''+'' \<or> c = CHR ''-'' then rest else s
               | [] \<Rightarrow> s);
          z = takeWhile isDigit s
      in if z = [] then NaN else Num (sign * digitsValue z))"

text \<open>
  A number inside a template literal or under \<open>toString()\<close>: \<open>NaN\<close> prints as \<open>NaN\<close>, an
  integer in decimal (as the source's numbers do below \<open>10^21\<close>).
\<close>

definition digitChar :: "nat \<Rightarrow> char" where
  "digitChar d = ''0123456789'' ! d"

fun natToString :: "nat \<Rightarrow> string" where
  "natToString n =
     (if n < 10 then [digitChar n]
      else natToString (n div 10) @ [digitChar (n mod 10)])"

declare natToString.simps [simp del]

definition intToString :: "int \<Rightarrow> string" where
  "intToString i = (if i < 0 then CHR ''-'' # natToString (nat (- i)) else natToString (nat i))"


subsection \<open>The data source client\<close>

record Post =
  post_id :: int
  title :: string
  body :: string

text \<open>
  The fields of a response are \<open>posts\<close>, \<open>total\<close>, \<open>limit\<close> and \<open>skip\<close>; they carry the
  prefix \<open>data_\<close> to leave the plain names to the variables of the source.
\<close>

record PostResponse =
  data_posts :: "Post list"
  data_total :: int
  data_limit :: int
  data_skip :: int

text \<open>
  The remote posts API is outside the program. A \<open>dataSource\<close> stands for it: it maps the
  \<open>limit\<close> and \<open>skip\<close> of a request to the decoded JSON body, or to \<open>None\<close> when the
  \<open>fetch\<close> is rejected or the body does not decode. \<open>postsUrl\<close> is the address that carries
  the two numbers.
\<close>

type_synonym dataSource = "jsnum \<Rightarrow> jsnum \<Rightarrow> PostResponse option"


definition getBlogPosts_skip :: "jsnum \<Rightarrow> jsnum \<Rightarrow> jsnum" where
  "getBlogPosts_skip limit page = (page - Num 1) * limit"


definition getBlogPosts :: "dataSource \<Rightarrow> jsnum \<Rightarrow> jsnum \<Rightarrow> PostResponse option" where
  "getBlogPosts source limit page =
     (let skip = getBlogPosts_skip limit page in source limit skip)"

subsection \<open>The page component\<close>

text \<open>
  The page receives the query as an object whose values are a string, an array of
  strings, or missing. The object is an association list in entry order; its keys are
  distinct.
\<close>

datatype param = Str string | Arr "string list"

type_synonym searchParams = "(string \<times> param) list"

definition usePagination :: "searchParams \<Rightarrow> bool" where
  "usePagination searchParams = (map_of searchParams ''style'' \<noteq> Some (Str ''infinite''))"

text \<open>
  The \<open>forEach\<close> over \<open>Object.entries(searchParams)\<close>, run on the pair
  \<open>(currentPage, currentLimit)\<close> that starts at \<open>(1, 5)\<close>. The object is always there,
  so the guard \<^verbatim>\<open>if (searchParams)\<close> is passed.
\<close>

definition parseEntry :: "string \<times> param \<Rightarrow> jsnum \<times> jsnum \<Rightarrow> jsnum \<times> jsnum" where
  "parseEntry entry state =
     (case entry of (key, value) \<Rightarrow>
        (case state of (currentPage, currentLimit) \<Rightarrow>
           (case value of
              Str v \<Rightarrow>
                (let currentPage = (if key = ''page'' then parseInt v else currentPage);
                     currentLimit = (if key = ''limit'' then parseInt v else currentLimit)
                 in (currentPage, currentLimit))
            | Arr _ \<Rightarrow> (currentPage, currentLimit))))"

definition parsePageLimit :: "searchParams \<Rightarrow> jsnum \<times> jsnum" where
  "parsePageLimit searchParams = fold parseEntry searchParams (Num 1, Num 5)"

definition currentPage_of :: "searchParams \<Rightarrow> jsnum" where
  "currentPage_of searchParams = fst (parsePageLimit searchParams)"

definition currentLimit_of :: "searchParams \<Rightarrow> jsnum" where
  "currentLimit_of searchParams = snd (parsePageLimit searchParams)"



subsection \<open>The address: query parameters and the router\<close>

text \<open>
  A \<open>URLSearchParams\<close> object is the list of its name/value pairs, in order and with
  duplicates. \<open>get\<close> returns the first value of a name, \<open>set\<close> overwrites the first pair
  of the name and removes the others (appending when there is none), \<open>delete\<close> removes
  every pair of the name. Serialising the pairs and parsing them back, as
  \<^verbatim>\<open>new URLSearchParams(searchParams.toString())\<close> does, returns the same pairs.
\<close>

type_synonym URLSearchParams = "(string \<times> string) list"

definition params_get :: "string \<Rightarrow> URLSearchParams \<Rightarrow> string option" where
  "params_get name params = map_of params name"

definition params_delete :: "string \<Rightarrow> URLSearchParams \<Rightarrow> URLSearchParams" where
  "params_delete name params = filter (\<lambda>entry. fst entry \<noteq> name) params"

fun params_set :: "string \<Rightarrow> string \<Rightarrow> URLSearchParams \<Rightarrow> URLSearchParams" where
  "params_set name value [] = [(name, value)]"
| "params_set name value (entry # params) =
     (if fst entry = name then (name, value) # params_delete name params
      else entry # params_set name value params)"

text \<open>
  The address is the path and the query. \<open>router.push\<close> of
  \<^verbatim>\<open>`${pathname}?${params.toString()}`\<close> makes that pair the current address; the router
  remembers every address pushed.
\<close>

record Location =
  loc_pathname :: string
  loc_search :: URLSearchParams

record Router =
  current :: Location
  pushed :: "Location list"

definition router_push :: "Router \<Rightarrow> Location \<Rightarrow> Router" where
  "router_push router target = \<lparr>current = target, pushed = pushed router @ [target]\<rparr>"

text \<open>
  The framework hands the page component the query of the current address as an object:
  a name that occurs once maps to its string, a name that occurs several times to the
  array of its values.
\<close>

definition params_getAll :: "string \<Rightarrow> URLSearchParams \<Rightarrow> string list" where
  "params_getAll name params = map snd (filter (\<lambda>entry. fst entry = name) params)"

definition paramOf :: "string list \<Rightarrow> param" where
  "paramOf values = (case values of [v] \<Rightarrow> Str v | _ \<Rightarrow> Arr values)"

function searchParamsObject :: "URLSearchParams \<Rightarrow> searchParams" where
  "searchParamsObject [] = []"
| "searchParamsObject (entry # params) =
     (fst entry, paramOf (snd entry # params_getAll (fst entry) params))
       # searchParamsObject (filter (\<lambda>e. fst e \<noteq> fst entry) params)"
  by pat_completeness auto
termination
  by (relation "measure length") (auto simp add: less_Suc_eq_le)

subsection \<open>The style toggle\<close>

datatype style = pagination | infinite

text \<open>
  The page passes \<^verbatim>\<open>usePagination ? 'pagination' : 'infinite'\<close> as \<open>currentStyle\<close>.
\<close>

definition currentStyle_of :: "searchParams \<Rightarrow> style" where
  "currentStyle_of searchParams = (if usePagination searchParams then pagination else infinite)"

definition togglePaginationStyle :: "style \<Rightarrow> Router \<Rightarrow> Router" where
  "togglePaginationStyle currentStyle router =
     (let pathname = loc_pathname (current router);
          searchParams = loc_search (current router);
          params = searchParams;
          params = (if currentStyle = pagination then params_set ''style'' ''infinite'' params
                    else params_delete ''style'' params)
      in router_push router \<lparr>loc_pathname = pathname, loc_search = params\<rparr>)"

text \<open>
  The display mode an address renders in, and one click on the toggle as the page
  renders it for that address.
\<close>

definition displayStyle :: "Router \<Rightarrow> style" where
  "displayStyle router = currentStyle_of (searchParamsObject (loc_search (current router)))"

definition clickToggle :: "Router \<Rightarrow> Router" where
  "clickToggle router = togglePaginationStyle (displayStyle router) router"

subsection \<open>Pagination controls: navigation\<close>

text \<open>
  \<open>createQueryString\<close> and \<open>navigateToPage\<close> close over the props \<open>limit\<close> and the derived
  \<open>totalPages\<close>, and over the router. The props are integers here.
\<close>

definition createQueryString :: "int \<Rightarrow> URLSearchParams \<Rightarrow> string \<Rightarrow> string \<Rightarrow> URLSearchParams" where
  "createQueryString limit searchParams name value =
     (let params = searchParams;
          params = params_set name value params;
          params = (if name \<noteq> ''limit'' then params_set ''limit'' (intToString limit) params
                    else params)
      in params)"

definition navigateToPage :: "int \<Rightarrow> int \<Rightarrow> Router \<Rightarrow> int \<Rightarrow> Router" where
  "navigateToPage totalPages limit router page =
     (if page < 1 \<or> page > totalPages then router
      else
        (let pathname = loc_pathname (current router);
             searchParams = loc_search (current router);
             queryString = createQueryString limit searchParams ''page'' (intToString page)
         in router_push router \<lparr>loc_pathname = pathname, loc_search = queryString\<rparr>))"

subsection \<open>The infinite list loader\<close>

text \<open>
  The three \<open>useState\<close> cells of \<open>BlogPost\<close>: \<open>posts\<close>, \<open>isLoading\<close> and \<open>page\<close>, with their
  initial values.
\<close>

record BlogPostState =
  state_posts :: "Post list"
  state_isLoading :: bool
  state_page :: int

definition BlogPost_init :: "PostResponse \<Rightarrow> BlogPostState" where
  "BlogPost_init data =
     \<lparr>state_posts = data_posts data, state_isLoading = False, state_page = 1\<rparr>"


definition loadMorePosts_skip :: "int \<Rightarrow> jsnum \<Rightarrow> jsnum" where
  "loadMorePosts_skip nextPage limit = Num nextPage * limit - limit"

text \<open>
  One call of \<open>loadMorePosts\<close>, run to completion. The result is the new state and the
  request issued, as \<open>(limit, skip)\<close>, or \<open>None\<close> when the guard returns before any
  \<open>fetch\<close>. A failed \<open>fetch\<close> is caught and logged; \<open>finally\<close> clears \<open>isLoading\<close> either way.
\<close>

definition loadMorePosts ::
  "dataSource \<Rightarrow> int \<Rightarrow> jsnum \<Rightarrow> BlogPostState \<Rightarrow> BlogPostState \<times> (jsnum \<times> jsnum) option" where
  "loadMorePosts source totalItems limit st =
     (if state_isLoading st \<or> int (length (state_posts st)) \<ge> totalItems then (st, None)
      else
        (let st = st\<lparr>state_isLoading := True\<rparr>;
             nextPage = state_page st + 1;
             skip = loadMorePosts_skip nextPage limit;
             st = (case source limit skip of
                     Some newData \<Rightarrow>
                       st\<lparr>state_posts := state_posts st @ data_posts newData,
                          state_page := nextPage\<rparr>
                   | None \<Rightarrow> st);
             st = st\<lparr>state_isLoading := False\<rparr>
         in (st, Some (limit, skip))))"



text \<open>
  Modelled from the spec: the remote data source, which is not part of the program. It
  holds an ordered collection of items; a request with \<open>limit\<close> and \<open>skip\<close> is answered by
  the page of at most \<open>limit\<close> items that starts at the zero-based offset \<open>skip\<close>, together
  with the size of the whole collection as \<open>total\<close>. A request whose numbers are \<open>NaN\<close> or
  negative is answered by no page.
\<close>

definition remotePosts :: "Post list \<Rightarrow> dataSource" where
  "remotePosts items limit skip =
     (case limit of
        NaN \<Rightarrow> None
      | Num l \<Rightarrow>
          (case skip of
             NaN \<Rightarrow> None
           | Num s \<Rightarrow>
               if l < 0 \<or> s < 0 then None
               else Some \<lparr>data_posts = take (nat l) (drop (nat s) items),
                          data_total = int (length items),
                          data_limit = l, data_skip = s\<rparr>))"

definition mkPost :: "int \<Rightarrow> Post" where
  "mkPost i = \<lparr>post_id = i, title = ''title'', body = ''body''\<rparr>"

definition twelvePosts :: "Post list" where
  "twelvePosts = map mkPost [1, 2, 3, 4, 5, 6, 7, 8, 9, 10, 11, 12]"



definition lastTwo :: PostResponse where
  "lastTwo =
     \<lparr>data_posts = map mkPost [11, 12], data_total = 12, data_limit = 5, data_skip = 10\<rparr>"


section \<open>Properties\<close>

subsection \<open>The page-number window\<close>

lemma pushRange_upto: "pushRange i hi pages = pages @ [i..hi]"
proof (induction i hi pages rule: pushRange.induct)
  case (1 i hi pages)
  show ?case
  proof (cases "i \<le> hi")
    case True
    then have "pushRange i hi pages = pushRange (i + 1) hi (pages @ [i])"
      by (simp add: pushRange.simps [of i hi pages])
    also have "\<dots> = (pages @ [i]) @ [i + 1..hi]"
      using True "1.IH" by simp
    also have "\<dots> = pages @ [i..hi]"
      using True by (simp add: upto_rec1)
    finally show ?thesis .
  next
    case False
    then show ?thesis
      by (simp add: pushRange.simps [of i hi pages])
  qed
qed

lemma getPageNumbers_eq:
  "getPageNumbers currentPage totalPages =
     [1] @ (if currentPage > 4 then [- 1] else [])
       @ [max 2 (currentPage - 2)..min (totalPages - 1) (currentPage + 2)]
       @ (if currentPage < totalPages - 3 then [- 2] else [])
       @ (if totalPages > 1 then [totalPages] else [])"
  by (simp add: getPageNumbers_def pushRange_upto Let_def)

lemma getPageNumbers_set:
  "set (getPageNumbers currentPage totalPages) =
     {1} \<union> (if currentPage > 4 then {- 1} else {})
       \<union> {max 2 (currentPage - 2)..min (totalPages - 1) (currentPage + 2)}
       \<union> (if currentPage < totalPages - 3 then {- 2} else {})
       \<union> (if totalPages > 1 then {totalPages} else {})"
  by (simp add: getPageNumbers_eq)

lemma getPageNumbers_distinct: "distinct (getPageNumbers currentPage totalPages)"
  by (auto simp add: getPageNumbers_eq)

text \<open>
  C1. For every \<open>totalPages \<ge> 1\<close> and every \<open>currentPage\<close> between 1 and \<open>totalPages\<close>,
  the window contains the page number 1 and, when \<open>totalPages > 1\<close>, the page number
  \<open>totalPages\<close>.
\<close>

theorem getPageNumbers_first_last:
  assumes "1 \<le> totalPages" and "1 \<le> currentPage" and "currentPage \<le> totalPages"
  shows "1 \<in> set (pageTokens (getPageNumbers currentPage totalPages)) \<and>
         (totalPages > 1 \<longrightarrow>
            totalPages \<in> set (pageTokens (getPageNumbers currentPage totalPages)))"
  using assms by (simp add: pageTokens_def isEllipsis_def getPageNumbers_set)

theorem getPageNumbers_first_last_witness:
  "(1::int) \<le> 10 \<and> (1::int) \<le> 5 \<and> (5::int) \<le> 10 \<and> (10::int) > 1 \<and>
   1 \<in> set (pageTokens (getPageNumbers 5 10)) \<and>
   10 \<in> set (pageTokens (getPageNumbers 5 10))"
  using getPageNumbers_first_last [of 10 5] by simp

text \<open>
  C3. The claim: for some \<open>totalPages \<ge> 1\<close> and some \<open>currentPage\<close> in range the window
  shows one page number twice. The loop bounds \<open>max 2 _\<close> and \<open>min (totalPages - 1) _\<close>
  keep the range inside \<open>2..totalPages - 1\<close>, away from the fixed first and last entries,
  so no such input exists.
\<close>

theorem getPageNumbers_duplicate_counterexample:
  "\<not> (\<exists>totalPages currentPage. 1 \<le> totalPages \<and> 1 \<le> currentPage \<and>
        currentPage \<le> totalPages \<and>
        \<not> distinct (pageTokens (getPageNumbers currentPage totalPages)))"
  by (simp add: pageTokens_def getPageNumbers_distinct)

text \<open>
  C3, amended. For every \<open>totalPages \<ge> 1\<close> and every \<open>currentPage\<close> between 1 and
  \<open>totalPages\<close>, no page number occurs twice in the window.
\<close>

theorem getPageNumbers_no_duplicates:
  assumes "1 \<le> totalPages" and "1 \<le> currentPage" and "currentPage \<le> totalPages"
  shows "distinct (pageTokens (getPageNumbers currentPage totalPages))"
  by (simp add: pageTokens_def getPageNumbers_distinct)

theorem getPageNumbers_no_duplicates_witness:
  "(1::int) \<le> 3 \<and> (1::int) \<le> 2 \<and> (2::int) \<le> 3 \<and>
   distinct (pageTokens (getPageNumbers 2 3))"
  using getPageNumbers_no_duplicates [of 3 2] by simp

text \<open>
  C4. For every \<open>totalPages \<ge> 1\<close> and \<open>currentPage\<close> between 1 and \<open>totalPages\<close>: when
  \<open>currentPage \<le> 4\<close> the leading ellipsis \<open>-1\<close> is absent, and when
  \<open>currentPage \<ge> totalPages - 3\<close> the trailing ellipsis \<open>-2\<close> is absent.
\<close>

theorem getPageNumbers_ellipses:
  assumes "1 \<le> totalPages" and "1 \<le> currentPage" and "currentPage \<le> totalPages"
  shows "(currentPage \<le> 4 \<longrightarrow> - 1 \<notin> set (getPageNumbers currentPage totalPages)) \<and>
         (currentPage \<ge> totalPages - 3 \<longrightarrow>
            - 2 \<notin> set (getPageNumbers currentPage totalPages))"
  using assms by (simp add: getPageNumbers_set)

theorem getPageNumbers_ellipses_witness:
  "(1::int) \<le> 6 \<and> (1::int) \<le> 4 \<and> (4::int) \<le> 6 \<and> (4::int) \<le> 4 \<and> (4::int) \<ge> 6 - 3 \<and>
   - 1 \<notin> set (getPageNumbers 4 6) \<and> - 2 \<notin> set (getPageNumbers 4 6)"
  using getPageNumbers_ellipses [of 6 4] by simp

text \<open>
  C5. The three worked examples: 10 pages at page 5, 3 pages at page 2, and a single page.
\<close>

theorem getPageNumbers_examples:
  "getPageNumbers 5 10 = [1, - 1, 3, 4, 5, 6, 7, - 2, 10] \<and>
   getPageNumbers 2 3 = [1, 2, 3] \<and>
   getPageNumbers 1 1 = [1]"
  by (simp add: getPageNumbers_eq upto_rec1)

subsection \<open>Arithmetic with \<open>NaN\<close>\<close>

lemma Num_arith [simp]:
  "Num x + Num y = Num (x + y)"
  "Num x - Num y = Num (x - y)"
  "Num x * Num y = Num (x * y)"
  by (simp_all add: plus_jsnum_def minus_jsnum_def times_jsnum_def)

lemma NaN_arith [simp]:
  "NaN + b = NaN" "a + NaN = NaN"
  "NaN - b = NaN" "a - NaN = NaN"
  "NaN * b = NaN" "a * NaN = NaN"
  by (simp_all add: plus_jsnum_def minus_jsnum_def times_jsnum_def split: jsnum.splits)

lemma loadMorePosts_skip_second_page: "loadMorePosts_skip 2 limit = limit"
  by (cases limit) (simp_all add: loadMorePosts_skip_def)

subsection \<open>The two skip computations\<close>



subsection \<open>Navigation\<close>

text \<open>
  C8. For every target page \<open>p\<close> with \<open>p < 1\<close> or \<open>p > totalPages\<close>, \<open>navigateToPage\<close> does
  nothing: the router is returned as it was, with the same current address (path and
  every query parameter) and no new address pushed.
\<close>

theorem navigateToPage_out_of_range:
  assumes "page < 1 \<or> page > totalPages"
  shows "navigateToPage totalPages limit router page = router"
  using assms by (auto simp add: navigateToPage_def)

theorem navigateToPage_out_of_range_witness:
  "((0::int) < 1 \<or> (0::int) > 3) \<and>
   navigateToPage 3 5
     \<lparr>current = \<lparr>loc_pathname = ''/pagination-example'',
                  loc_search = [(''page'', ''1''), (''limit'', ''5'')]\<rparr>,
      pushed = []\<rparr> 0
   = \<lparr>current = \<lparr>loc_pathname = ''/pagination-example'',
                  loc_search = [(''page'', ''1''), (''limit'', ''5'')]\<rparr>,
      pushed = []\<rparr>"
  using navigateToPage_out_of_range [of 0 3 5
     "\<lparr>current = \<lparr>loc_pathname = ''/pagination-example'',
                  loc_search = [(''page'', ''1''), (''limit'', ''5'')]\<rparr>,
      pushed = []\<rparr>"]
  by simp

subsection \<open>The infinite list loader\<close>

text \<open>
  C9. The loader's page counter starts at 1 whatever the response it is given, and so
  whatever page of the address that response was fetched for. Hence the first
  incremental fetch, when the guard lets it through, asks for \<open>skip = limit\<close>, the second
  page; when the address named a page \<open>p > 1\<close> and the limit is positive, that is not the
  skip of the page after \<open>p\<close>.
\<close>

theorem loader_starts_at_page_one:
  "state_page (BlogPost_init data) = 1 \<and>
   (int (length (data_posts data)) < totalItems \<longrightarrow>
      snd (loadMorePosts source totalItems limit (BlogPost_init data)) = Some (limit, limit)) \<and>
   (1 < p \<and> 0 < l \<longrightarrow>
      loadMorePosts_skip (state_page (BlogPost_init data) + 1) (Num l)
        \<noteq> getBlogPosts_skip (Num l) (Num (p + 1)))"
  by (simp add: BlogPost_init_def loadMorePosts_def Let_def loadMorePosts_skip_second_page
      getBlogPosts_skip_def)

theorem loader_starts_at_page_one_witness:
  "getBlogPosts (remotePosts twelvePosts) (Num 5) (Num 3) = Some lastTwo \<and>
   int (length (data_posts lastTwo)) < 12 \<and> (1::int) < 3 \<and> (0::int) < 5 \<and>
   state_page (BlogPost_init lastTwo) = 1 \<and>
   snd (loadMorePosts (remotePosts twelvePosts) 12 (Num 5) (BlogPost_init lastTwo))
     = Some (Num 5, Num 5) \<and>
   loadMorePosts_skip (state_page (BlogPost_init lastTwo) + 1) (Num 5)
     \<noteq> getBlogPosts_skip (Num 5) (Num (3 + 1))"
proof -
  have fetched: "getBlogPosts (remotePosts twelvePosts) (Num 5) (Num 3) = Some lastTwo"
    by code_simp
  have short: "int (length (data_posts lastTwo)) < 12"
    by (simp add: lastTwo_def)
  have above: "(1::int) < 3 \<and> (0::int) < 5"
    by simp
  note start = loader_starts_at_page_one [where data = lastTwo and totalItems = 12
      and source = "remotePosts twelvePosts" and limit = "Num 5" and p = 3 and l = 5]
  from start have c1: "state_page (BlogPost_init lastTwo) = 1"
    by blast
  from start short
  have c2: "snd (loadMorePosts (remotePosts twelvePosts) 12 (Num 5) (BlogPost_init lastTwo))
     = Some (Num 5, Num 5)"
    by blast
  from start above
  have c3: "loadMorePosts_skip (state_page (BlogPost_init lastTwo) + 1) (Num 5)
     \<noteq> getBlogPosts_skip (Num 5) (Num (3 + 1))"
    by blast
  from fetched short above c1 c2 c3 show ?thesis
    by blast
qed

subsection \<open>Reading the page and the limit from the query\<close>

lemma parseEntry_Str:
  "parseEntry (key, Str v) (currentPage, currentLimit) =
     (if key = ''page'' then parseInt v else currentPage,
      if key = ''limit'' then parseInt v else currentLimit)"
  by (simp add: parseEntry_def)

lemma parseEntry_Arr:
  "parseEntry (key, Arr vs) (currentPage, currentLimit) = (currentPage, currentLimit)"
  by (simp add: parseEntry_def)

lemma fold_parseEntry:
  "distinct (map fst searchParams) \<Longrightarrow>
   fold parseEntry searchParams (currentPage, currentLimit) =
     (case map_of searchParams ''page'' of Some (Str v) \<Rightarrow> parseInt v | _ \<Rightarrow> currentPage,
      case map_of searchParams ''limit'' of Some (Str v) \<Rightarrow> parseInt v | _ \<Rightarrow> currentLimit)"
proof (induction searchParams arbitrary: currentPage currentLimit)
  case Nil
  then show ?case by simp
next
  case (Cons entry searchParams)
  obtain key "value" where entry: "entry = (key, value)" by (cases entry)
  from Cons.prems entry have absent: "map_of searchParams key = None"
    by (simp add: map_of_eq_None_iff)
  from Cons.prems have "distinct (map fst searchParams)" by simp
  note IH = Cons.IH [OF this]
  show ?case
  proof (cases "value")
    case (Str v)
    then show ?thesis
      using absent by (auto simp add: entry parseEntry_Str IH)
  next
    case (Arr vs)
    then show ?thesis
      using absent by (auto simp add: entry parseEntry_Arr IH)
  qed
qed


lemma currentPage_of_eq:
  "distinct (map fst searchParams) \<Longrightarrow>
   currentPage_of searchParams =
     (case map_of searchParams ''page'' of Some (Str v) \<Rightarrow> parseInt v | _ \<Rightarrow> Num 1)"
  by (simp add: currentPage_of_def parsePageLimit_def fold_parseEntry)

lemma currentLimit_of_eq:
  "distinct (map fst searchParams) \<Longrightarrow>
   currentLimit_of searchParams =
     (case map_of searchParams ''limit'' of Some (Str v) \<Rightarrow> parseInt v | _ \<Rightarrow> Num 5)"
  by (simp add: currentLimit_of_def parsePageLimit_def fold_parseEntry)




subsection \<open>The style toggle\<close>

lemma params_getAll_Nil: "params_getAll key [] = []"
  by (simp add: params_getAll_def)

lemma params_getAll_Cons:
  "params_getAll key (entry # params) =
     (if fst entry = key then snd entry # params_getAll key params
      else params_getAll key params)"
  by (simp add: params_getAll_def)

lemma params_getAll_delete:
  "params_getAll key (params_delete name params) =
     (if key = name then [] else params_getAll key params)"
  by (induction params) (auto simp add: params_getAll_def params_delete_def)

lemma params_getAll_set:
  "params_getAll key (params_set name v params) =
     (if key = name then [v] else params_getAll key params)"
proof (induction params)
  case Nil
  then show ?case by (simp add: params_getAll_Nil params_getAll_Cons)
next
  case (Cons entry params)
  then show ?case
    by (auto simp add: params_getAll_Cons params_getAll_delete)
qed

lemma params_delete_set:
  "params_delete name (params_set name v params) = params_delete name params"
  by (induction params) (auto simp add: params_delete_def)

lemma params_delete_idem:
  "params_delete name (params_delete name params) = params_delete name params"
  by (simp add: params_delete_def)

lemma params_get_getAll:
  "params_get key params = (case params_getAll key params of [] \<Rightarrow> None | v # _ \<Rightarrow> Some v)"
  by (induction params) (auto simp add: params_get_def params_getAll_def)

lemma map_of_searchParamsObject:
  "map_of (searchParamsObject params) key =
     (if params_getAll key params = [] then None else Some (paramOf (params_getAll key params)))"
proof (induction params rule: searchParamsObject.induct)
  case 1
  then show ?case by (simp add: params_getAll_def)
next
  case (2 entry params)
  have other: "params_getAll key (filter (\<lambda>e. fst e \<noteq> fst entry) params) = params_getAll key params"
    if "key \<noteq> fst entry"
    using that by (induction params) (auto simp add: params_getAll_def)
  show ?case
  proof (cases "key = fst entry")
    case True
    then show ?thesis by (simp add: params_getAll_def)
  next
    case False
    then have "params_getAll key (entry # params) = params_getAll key params"
      by (auto simp add: params_getAll_def)
    with False other "2.IH" show ?thesis by simp
  qed
qed

lemma fst_searchParamsObject:
  "set (map fst (searchParamsObject params)) \<subseteq> set (map fst params)"
  by (induction params rule: searchParamsObject.induct) auto

lemma distinct_searchParamsObject: "distinct (map fst (searchParamsObject params))"
proof (induction params rule: searchParamsObject.induct)
  case 1
  then show ?case by simp
next
  case (2 entry params)
  have "fst entry \<notin> set (map fst (filter (\<lambda>e. fst e \<noteq> fst entry) params))"
    by auto
  with fst_searchParamsObject [of "filter (\<lambda>e. fst e \<noteq> fst entry) params"]
  have "fst entry \<notin> set (map fst (searchParamsObject (filter (\<lambda>e. fst e \<noteq> fst entry) params)))"
    by blast
  with "2.IH" show ?case by simp
qed

lemma paramOf_eq_Str: "paramOf vs = Str v \<longleftrightarrow> vs = [v]"
  by (auto simp add: paramOf_def split: list.splits)

lemma displayStyle_eq:
  "displayStyle router =
     (if params_getAll ''style'' (loc_search (current router)) = [''infinite'']
      then infinite else pagination)"
  by (auto simp add: displayStyle_def currentStyle_of_def usePagination_def
      map_of_searchParamsObject paramOf_eq_Str)


lemma clickToggle_search:
  "loc_search (current (clickToggle router)) =
     (if displayStyle router = pagination
      then params_set ''style'' ''infinite'' (loc_search (current router))
      else params_delete ''style'' (loc_search (current router)))"
  by (simp add: clickToggle_def togglePaginationStyle_def router_push_def Let_def)

lemma clickToggle_pathname:
  "loc_pathname (current (clickToggle router)) = loc_pathname (current router)"
  by (simp add: clickToggle_def togglePaginationStyle_def router_push_def Let_def)

lemma clickToggle_getAll:
  "params_getAll key (loc_search (current (clickToggle router))) =
     (if key = ''style''
      then (if displayStyle router = pagination then [''infinite''] else [])
      else params_getAll key (loc_search (current router)))"
  by (simp add: clickToggle_search params_getAll_set params_getAll_delete)

lemma clickToggle_displayStyle:
  "displayStyle (clickToggle router) =
     (if displayStyle router = pagination then infinite else pagination)"
  by (simp add: displayStyle_eq [of "clickToggle router"] clickToggle_getAll)

lemma clickToggle_object:
  "key \<noteq> ''style'' \<Longrightarrow>
   map_of (searchParamsObject (loc_search (current (clickToggle router)))) key =
   map_of (searchParamsObject (loc_search (current router))) key"
  by (simp add: map_of_searchParamsObject clickToggle_getAll)

text \<open>
  C7. Two clicks on the style toggle bring any address back to the display mode it had
  (one click changes it). A click keeps the path, the \<open>page\<close> and \<open>limit\<close> parameters and
  every other parameter that is not \<open>style\<close>; the page component reads the same page and
  limit from the address after the click.
\<close>

theorem toggle_twice:
  "displayStyle (clickToggle (clickToggle router)) = displayStyle router \<and>
   displayStyle (clickToggle router) \<noteq> displayStyle router \<and>
   loc_pathname (current (clickToggle router)) = loc_pathname (current router) \<and>
   params_get ''page'' (loc_search (current (clickToggle router))) =
     params_get ''page'' (loc_search (current router)) \<and>
   params_get ''limit'' (loc_search (current (clickToggle router))) =
     params_get ''limit'' (loc_search (current router)) \<and>
   params_delete ''style'' (loc_search (current (clickToggle router))) =
     params_delete ''style'' (loc_search (current router)) \<and>
   currentPage_of (searchParamsObject (loc_search (current (clickToggle router)))) =
     currentPage_of (searchParamsObject (loc_search (current router))) \<and>
   currentLimit_of (searchParamsObject (loc_search (current (clickToggle router)))) =
     currentLimit_of (searchParamsObject (loc_search (current router)))"
proof -
  have twice: "displayStyle (clickToggle (clickToggle router)) = displayStyle router"
    by (cases "displayStyle router") (simp_all add: clickToggle_displayStyle)
  have flip: "displayStyle (clickToggle router) \<noteq> displayStyle router"
    by (simp add: clickToggle_displayStyle)
  have page: "params_get ''page'' (loc_search (current (clickToggle router))) =
     params_get ''page'' (loc_search (current router))"
    by (simp add: params_get_getAll clickToggle_getAll)
  have lim: "params_get ''limit'' (loc_search (current (clickToggle router))) =
     params_get ''limit'' (loc_search (current router))"
    by (simp add: params_get_getAll clickToggle_getAll)
  have rest: "params_delete ''style'' (loc_search (current (clickToggle router))) =
     params_delete ''style'' (loc_search (current router))"
    by (simp add: clickToggle_search params_delete_set params_delete_idem)
  have cp: "currentPage_of (searchParamsObject (loc_search (current (clickToggle router)))) =
     currentPage_of (searchParamsObject (loc_search (current router)))"
    by (simp add: currentPage_of_eq distinct_searchParamsObject clickToggle_object)
  have cl: "currentLimit_of (searchParamsObject (loc_search (current (clickToggle router)))) =
     currentLimit_of (searchParamsObject (loc_search (current router)))"
    by (simp add: currentLimit_of_eq distinct_searchParamsObject clickToggle_object)
  from twice flip page lim rest cp cl clickToggle_pathname show ?thesis by simp
qed

subsection \<open>The infinite list loader: accumulation\<close>


















end
